theory Spec2Isabelle
  imports Main
begin

section \<open>EventPhotos: data model\<close>

text \<open>
  The component \<^verbatim>\<open>src/components/EventPhotos.tsx\<close> is embedded as pure functions
  over an explicit view state. Everything the component does to the outside world (state
  setters, navigation, console output, collaborator calls, network and DOM operations,
  alerts and timer waits) is recorded, in program order, in a list of effects.
  A rejected promise or a thrown error is the \<open>Inl\<close> side of a sum.
\<close>

type_synonym exn = string

text \<open>\<^verbatim>\<open>interface Event { id; name; date }\<close>; the field \<open>id\<close> is primed, as \<open>id\<close> is the
  identity function of HOL.\<close>

record Event =
  id' :: string
  name :: string
  date :: string

record MatchingImage =
  imageId :: string
  eventId :: string
  eventName :: string
  imageUrl :: string
  matchedDate :: string

text \<open>Modelled from the spec: the element type of the result of
  \<^verbatim>\<open>getAllAttendeeImagesByUser\<close>, declared in \<^verbatim>\<open>config/attendeeStorage\<close>:
  \<^verbatim>\<open>{ eventId, uploadedAt, matchedImages: sequence of url }\<close>. The field \<open>eventId\<close> is
  prefixed to keep it apart from the field of \<open>MatchingImage\<close>.\<close>

record AttendeeImageData =
  data_eventId :: string
  uploadedAt :: string
  matchedImages :: "string list"

text \<open>The three \<^verbatim>\<open>useState\<close> cells of the component.\<close>

record view_state =
  event :: "Event option"
  images :: "MatchingImage list"
  loading :: bool

definition mount_state :: view_state where
  "mount_state = \<lparr>event = None, images = [], loading = True\<rparr>"

text \<open>What one activation reads from its surroundings: the stored \<^verbatim>\<open>userEmail\<close>
  (\<^verbatim>\<open>localStorage.getItem\<close> gives \<^verbatim>\<open>null\<close> or a string), the route parameter
  (\<^verbatim>\<open>string | undefined\<close>) and the two collaborators, whose promises resolve (\<open>Inr\<close>)
  or reject (\<open>Inl\<close>).\<close>

record env =
  userEmail :: "string option"
  param_eventId :: "string option"
  getEventById :: "string \<Rightarrow> exn + Event option"
  getAllAttendeeImagesByUser :: "string \<Rightarrow> exn + AttendeeImageData list"

text \<open>The anchor element built by \<^verbatim>\<open>handleDownload\<close>; a blob is named by a number.\<close>

record link =
  href :: nat
  download :: string
  type' :: string
  target :: string

datatype effect =
    SetLoading bool
  | SetEvent Event
  | SetImages "MatchingImage list"
  | LocalStorageGetItem string
  | Navigate string
  | ConsoleError string "exn option"
  | GetEventById string
  | GetAllAttendeeImagesByUser string
  | Fetch string
  | ResponseBlob
  | CreateObjectURL nat
  | AppendChild link
  | Click link
  | SetTimeoutCleanup nat link
  | WindowOpen string string
  | Alert string
  | Delay nat

section \<open>String helpers of JavaScript\<close>

text \<open>\<^verbatim>\<open>s.split(sep)\<close> for a one-character separator: never the empty array.\<close>

fun js_split :: "char \<Rightarrow> string \<Rightarrow> string list" where
  "js_split sep [] = [[]]"
| "js_split sep (c # cs) =
     (if c = sep then [] # js_split sep cs
      else (case js_split sep cs of
              [] \<Rightarrow> [[c]]
            | w # ws \<Rightarrow> (c # w) # ws))"

text \<open>\<^verbatim>\<open>a.pop()\<close>: the last element, \<^verbatim>\<open>undefined\<close> on the empty array.\<close>

definition pop :: "'a list \<Rightarrow> 'a option" where
  "pop xs = (if xs = [] then None else Some (last xs))"

text \<open>\<^verbatim>\<open>x || d\<close> on \<^verbatim>\<open>string | null | undefined\<close>: the empty string is falsy too.\<close>

definition or_else :: "string option \<Rightarrow> string \<Rightarrow> string" where
  "or_else x d = (case x of None \<Rightarrow> d | Some s \<Rightarrow> if s = [] then d else s)"

text \<open>The spec's wording of the derived id, independent of \<open>js_split\<close>: the substring
  after the last \<open>/\<close>.\<close>

definition trailing_segment :: "string \<Rightarrow> string" where
  "trailing_segment url = rev (takeWhile (\<lambda>c. c \<noteq> CHR ''/'') (rev url))"

section \<open>Activation: \<^verbatim>\<open>fetchEventPhotos\<close>\<close>

text \<open>The object built by the inner \<^verbatim>\<open>map\<close> of lines 54-60.\<close>

definition toMatchingImage :: "Event \<Rightarrow> AttendeeImageData \<Rightarrow> string \<Rightarrow> MatchingImage" where
  "toMatchingImage eventDetails d url =
     \<lparr>imageId = or_else (pop (js_split CHR ''/'' url)) [],
      eventId = data_eventId d,
      eventName = name eventDetails,
      imageUrl = url,
      matchedDate = uploadedAt d\<rparr>"

text \<open>\<^verbatim>\<open>data.eventId === eventId\<close>: a string is never strictly equal to \<^verbatim>\<open>undefined\<close>.\<close>

definition same_event :: "string option \<Rightarrow> AttendeeImageData \<Rightarrow> bool" where
  "same_event p d = (Some (data_eventId d) = p)"

text \<open>Lines 51-61: \<^verbatim>\<open>filter\<close>, then \<^verbatim>\<open>flatMap\<close>.\<close>

definition eventImages :: "string option \<Rightarrow> Event \<Rightarrow> AttendeeImageData list \<Rightarrow> MatchingImage list" where
  "eventImages p eventDetails attendeeImageData =
     concat (map (\<lambda>d. map (toMatchingImage eventDetails d) (matchedImages d))
                 (filter (same_event p) attendeeImageData))"

text \<open>The body of the \<^verbatim>\<open>try\<close> block, lines 31-63: the settled outcome, the view state
  and the effects.\<close>

definition fetchEventPhotos_try :: "env \<Rightarrow> view_state \<Rightarrow> (exn + unit) \<times> view_state \<times> effect list" where
  "fetchEventPhotos_try e s =
     (let s1 = s\<lparr>loading := True\<rparr>;
          t1 = [SetLoading True, LocalStorageGetItem ''userEmail'']
      in case userEmail e of
           None \<Rightarrow> (Inr (), s1, t1 @ [Navigate ''/GoogleLogin''])
         | Some email \<Rightarrow>
             if email = [] then (Inr (), s1, t1 @ [Navigate ''/GoogleLogin''])
             else
               (let arg = or_else (param_eventId e) [];
                    t2 = t1 @ [GetEventById arg]
                in case getEventById e arg of
                     Inl err \<Rightarrow> (Inl err, s1, t2)
                   | Inr None \<Rightarrow>
                       (Inr (), s1,
                        t2 @ [ConsoleError ''Event not found'' None,
                              Navigate ''/attendee-dashboard''])
                   | Inr (Some eventDetails) \<Rightarrow>
                       (let s2 = s1\<lparr>event := Some eventDetails\<rparr>;
                            t3 = t2 @ [SetEvent eventDetails, GetAllAttendeeImagesByUser email]
                        in case getAllAttendeeImagesByUser e email of
                             Inl err \<Rightarrow> (Inl err, s2, t3)
                           | Inr attendeeImageData \<Rightarrow>
                               (let imgs = eventImages (param_eventId e) eventDetails attendeeImageData
                                in (Inr (), s2\<lparr>images := imgs\<rparr>, t3 @ [SetImages imgs])))))"

text \<open>The \<^verbatim>\<open>catch\<close> (line 65) and the \<^verbatim>\<open>finally\<close> (line 67) around it.\<close>

definition fetchEventPhotos :: "env \<Rightarrow> view_state \<Rightarrow> view_state \<times> effect list" where
  "fetchEventPhotos e s =
     (case fetchEventPhotos_try e s of
        (Inl err, s', t) \<Rightarrow>
          (s'\<lparr>loading := False\<rparr>,
           t @ [ConsoleError ''Error fetching event photos:'' (Some err), SetLoading False])
      | (Inr _, s', t) \<Rightarrow> (s'\<lparr>loading := False\<rparr>, t @ [SetLoading False]))"

section \<open>Rendering\<close>

datatype body = Grid "MatchingImage list" | EmptyPanel string

datatype view =
    Spinner string
  | Page "string option" string bool body

text \<open>Lines 142-217; \<open>fmt\<close> stands for \<^verbatim>\<open>new Date(d).toLocaleDateString()\<close>. The third
  argument of \<open>Page\<close> says whether the "Download All" button is present.\<close>

definition render :: "(string \<Rightarrow> string) \<Rightarrow> view_state \<Rightarrow> view" where
  "render fmt s =
     (if loading s then Spinner ''Loading photos...''
      else Page (map_option name (event s))
                (case event s of
                   None \<Rightarrow> ''Date not available''
                 | Some ev \<Rightarrow> if date ev = [] then ''Date not available'' else fmt (date ev))
                (length (images s) > 0)
                (if length (images s) > 0 then Grid (images s)
                 else EmptyPanel ''No photos found for this event''))"

section \<open>Downloads\<close>

text \<open>What \<^verbatim>\<open>fetch\<close> settles to: a rejection, or a response whose body may fail to
  materialise.\<close>

record response =
  ok :: bool
  statusText :: string
  content_type :: "string option"
  blob :: "exn + nat"

datatype fetch_outcome = Rejected exn | Responded response

text \<open>The network: what the \<open>k\<close>-th fetch of the session, to a given URL, settles to.\<close>

type_synonym net = "nat \<Rightarrow> string \<Rightarrow> fetch_outcome"

text \<open>The body of the \<^verbatim>\<open>try\<close> block of \<^verbatim>\<open>handleDownload\<close>, lines 76-117.\<close>

definition handleDownload_try :: "fetch_outcome \<Rightarrow> string \<Rightarrow> (exn + unit) \<times> effect list" where
  "handleDownload_try out url =
     (case out of
        Rejected err \<Rightarrow> (Inl err, [Fetch url])
      | Responded r \<Rightarrow>
          if \<not> ok r then (Inl (''Failed to download image: '' @ statusText r), [Fetch url])
          else
            (let contentType = or_else (content_type r) ''image/jpeg''
             in case blob r of
                  Inl err \<Rightarrow> (Inl err, [Fetch url, ResponseBlob])
                | Inr b \<Rightarrow>
                    (let filename = or_else (pop (js_split CHR ''/'' url)) ''photo.jpg'';
                         l = \<lparr>href = b, download = filename, type' = contentType,
                              target = ''_blank''\<rparr>
                     in (Inr (),
                         [Fetch url, ResponseBlob, CreateObjectURL b, AppendChild l, Click l,
                          SetTimeoutCleanup 100 l]))))"

text \<open>Lines 74-123: the \<^verbatim>\<open>catch\<close> logs and opens the raw URL in a new tab.\<close>

definition handleDownload :: "net \<Rightarrow> nat \<Rightarrow> string \<Rightarrow> (exn + unit) \<times> effect list" where
  "handleDownload nw k url =
     (case handleDownload_try (nw k url) url of
        (Inl err, t) \<Rightarrow>
          (Inr (), t @ [ConsoleError ''Error downloading image:'' (Some err),
                        WindowOpen url ''_blank''])
      | (Inr u, t) \<Rightarrow> (Inr u, t))"

text \<open>The \<^verbatim>\<open>for\<close> loop of lines 131-135. An awaited rejection leaves the loop.\<close>

fun download_loop :: "net \<Rightarrow> nat \<Rightarrow> MatchingImage list \<Rightarrow> (exn + unit) \<times> effect list" where
  "download_loop nw k [] = (Inr (), [])"
| "download_loop nw k (img # rest) =
     (case handleDownload nw k (imageUrl img) of
        (Inl err, t) \<Rightarrow> (Inl err, t)
      | (Inr _, t) \<Rightarrow>
          (case download_loop nw (Suc k) rest of
             (r, t') \<Rightarrow> (r, t @ [Delay 500] @ t')))"

definition start_notice :: string where
  "start_notice = ''Starting downloads. Please allow multiple downloads in your browser settings.''"

definition aggregate_warning :: string where
  "aggregate_warning = ''Some downloads may have failed. Please try downloading individual photos.''"

text \<open>Lines 125-140.\<close>

definition handleDownloadAll :: "net \<Rightarrow> nat \<Rightarrow> MatchingImage list \<Rightarrow> effect list" where
  "handleDownloadAll nw k imgs =
     (case download_loop nw k imgs of
        (Inl err, t) \<Rightarrow>
          Alert start_notice # t @
            [ConsoleError ''Error downloading all images:'' (Some err), Alert aggregate_warning]
      | (Inr _, t) \<Rightarrow> Alert start_notice # t)"

text \<open>A single-image download fails when the \<^verbatim>\<open>try\<close> block of \<^verbatim>\<open>handleDownload\<close>
  throws: the fetch rejects, the status is not OK, or the body does not materialise.\<close>

definition download_fails :: "net \<Rightarrow> nat \<Rightarrow> string \<Rightarrow> bool" where
  "download_fails nw k url = isl (fst (handleDownload_try (nw k url) url))"

text \<open>Observations on a trace: the URLs fetched, in order, and a clock that only timer
  waits advance (every other step takes no time in it, so it bounds the real time from
  below), read at each fetch.\<close>

fun fetched :: "effect list \<Rightarrow> string list" where
  "fetched [] = []"
| "fetched (Fetch url # t) = url # fetched t"
| "fetched (_ # t) = fetched t"


fun is_Alert :: "effect \<Rightarrow> bool" where
  "is_Alert (Alert _) = True"
| "is_Alert _ = False"

fun is_collaborator_call :: "effect \<Rightarrow> bool" where
  "is_collaborator_call (GetEventById _) = True"
| "is_collaborator_call (GetAllAttendeeImagesByUser _) = True"
| "is_collaborator_call _ = False"

section \<open>Example inputs\<close>

text \<open>The scenario of the spec: event \<open>ev1\<close>, named "Spring Gala", and an attendee with one
  record of two photos for it (and one record for another event).\<close>

definition gala :: Event where
  "gala = \<lparr>id' = ''ev1'', name = ''Spring Gala'', date = ''2024-05-01''\<rparr>"

definition gala_record :: AttendeeImageData where
  "gala_record = \<lparr>data_eventId = ''ev1'', uploadedAt = ''2024-05-01'',
                  matchedImages = [''https://x/a.jpg'', ''https://x/b.jpg'']\<rparr>"

definition other_record :: AttendeeImageData where
  "other_record = \<lparr>data_eventId = ''ev2'', uploadedAt = ''2024-06-01'',
                   matchedImages = [''https://x/c.jpg'']\<rparr>"

definition gala_a :: MatchingImage where
  "gala_a = \<lparr>imageId = ''a.jpg'', eventId = ''ev1'', eventName = ''Spring Gala'',
             imageUrl = ''https://x/a.jpg'', matchedDate = ''2024-05-01''\<rparr>"

definition gala_b :: MatchingImage where
  "gala_b = \<lparr>imageId = ''b.jpg'', eventId = ''ev1'', eventName = ''Spring Gala'',
             imageUrl = ''https://x/b.jpg'', matchedDate = ''2024-05-01''\<rparr>"

definition gala_env :: env where
  "gala_env = \<lparr>userEmail = Some ''ann@example.org'', param_eventId = Some ''ev1'',
               getEventById = (\<lambda>i. if i = ''ev1'' then Inr (Some gala) else Inr None),
               getAllAttendeeImagesByUser = (\<lambda>u. Inr [gala_record, other_record])\<rparr>"

definition anonymous_env :: env where
  "anonymous_env = gala_env\<lparr>userEmail := None\<rparr>"

definition unknown_event_env :: env where
  "unknown_event_env = gala_env\<lparr>param_eventId := Some ''ev9''\<rparr>"

definition lookup_fails_env :: env where
  "lookup_fails_env = gala_env\<lparr>getEventById := (\<lambda>i. Inl ''offline'')\<rparr>"

definition listing_fails_env :: env where
  "listing_fails_env = gala_env\<lparr>getAllAttendeeImagesByUser := (\<lambda>u. Inl ''offline'')\<rparr>"

text \<open>The view after the activation for \<open>ev1\<close> has finished, and a later activation of the
  same view, for \<open>ev2\<close>, in which the event lookup rejects.\<close>

definition gala_state :: view_state where
  "gala_state = fst (fetchEventPhotos gala_env mount_state)"

definition reactivation_fails_env :: env where
  "reactivation_fails_env =
     gala_env\<lparr>param_eventId := Some ''ev2'', getEventById := (\<lambda>i. Inl ''offline'')\<rparr>"

text \<open>No route parameter, although an event and a record with the empty id exist.\<close>

definition no_param_env :: env where
  "no_param_env =
     \<lparr>userEmail = Some ''ann@example.org'', param_eventId = None,
      getEventById = (\<lambda>i. if i = [] then Inr (Some \<lparr>id' = [], name = ''Nameless'', date = []\<rparr>)
                           else Inr None),
      getAllAttendeeImagesByUser =
        (\<lambda>u. Inr [\<lparr>data_eventId = [], uploadedAt = ''2024-07-01'',
                    matchedImages = [''https://x/d.jpg'']\<rparr>, gala_record])\<rparr>"

text \<open>Two networks: one where every fetch rejects, one where every fetch answers 404.\<close>

definition offline :: net where
  "offline k url = Rejected ''Failed to fetch''"


section \<open>Lemmas on the string helpers\<close>

lemma js_split_nonempty: "js_split sep s \<noteq> []"
  by (induction s) (auto split: list.splits)

lemma js_split_no_sep: "sep \<notin> set s \<Longrightarrow> js_split sep s = [s]"
  by (induction s) auto

lemma js_split_sep_length: "sep \<in> set s \<Longrightarrow> 2 \<le> length (js_split sep s)"
  by (induction s) (auto split: list.splits simp: js_split_nonempty Suc_le_eq)

lemma last_js_split: "last (js_split sep s) = rev (takeWhile (\<lambda>c. c \<noteq> sep) (rev s))"
proof (induction s)
  case Nil
  show ?case by simp
next
  case (Cons c cs)
  show ?case
  proof (cases "c = sep")
    case True
    then show ?thesis using Cons js_split_nonempty[of sep cs]
      by (simp add: takeWhile_append)
  next
    case False
    show ?thesis
    proof (cases "sep \<in> set cs")
      case True
      then obtain w v ws where "js_split sep cs = w # v # ws"
        using js_split_sep_length[of sep cs]
        by (cases "js_split sep cs"; cases "tl (js_split sep cs)") auto
      then show ?thesis using Cons False True
        by (auto simp add: takeWhile_append)
    next
      case absent: False
      then show ?thesis using Cons False
        by (simp add: js_split_no_sep takeWhile_append)
    qed
  qed
qed

lemma pop_js_split: "or_else (pop (js_split CHR ''/'' url)) [] = trailing_segment url"
  by (simp add: or_else_def pop_def js_split_nonempty last_js_split trailing_segment_def)

section \<open>Lemmas on the downloads\<close>

lemma fetched_append: "fetched (a @ b) = fetched a @ fetched b"
  by (induction a rule: fetched.induct) simp_all

lemma handleDownload_resolves: "fst (handleDownload nw k url) = Inr ()"
  by (simp add: handleDownload_def split: prod.splits sum.splits)

lemma handleDownload_try_fetched: "fetched (snd (handleDownload_try out url)) = [url]"
  by (simp add: handleDownload_try_def Let_def split: fetch_outcome.splits sum.splits)

lemma handleDownload_fetched: "fetched (snd (handleDownload nw k url)) = [url]"
proof (cases "handleDownload_try (nw k url) url")
  case (Pair r t)
  with handleDownload_try_fetched[of "nw k url" url] have "fetched t = [url]" by simp
  with Pair show ?thesis by (cases r) (simp_all add: handleDownload_def fetched_append)
qed




lemma handleDownload_try_alerts: "filter is_Alert (snd (handleDownload_try out url)) = []"
  by (simp add: handleDownload_try_def Let_def split: fetch_outcome.splits sum.splits)

lemma handleDownload_alerts: "filter is_Alert (snd (handleDownload nw k url)) = []"
proof (cases "handleDownload_try (nw k url) url")
  case (Pair r t)
  with handleDownload_try_alerts[of "nw k url" url] have "filter is_Alert t = []" by simp
  with Pair show ?thesis by (cases r) (simp_all add: handleDownload_def)
qed

text \<open>Since \<open>handleDownload\<close> always resolves, an iteration never leaves the loop.\<close>

lemma download_loop_step:
  "download_loop nw k (img # rest) =
     (fst (download_loop nw (Suc k) rest),
      snd (handleDownload nw k (imageUrl img)) @ [Delay 500] @ snd (download_loop nw (Suc k) rest))"
proof (cases "handleDownload nw k (imageUrl img)")
  case (Pair r t)
  with handleDownload_resolves[of nw k "imageUrl img"] have "r = Inr ()" by simp
  with Pair show ?thesis by (simp split: prod.splits)
qed

lemma download_loop_completes: "fst (download_loop nw k imgs) = Inr ()"
proof (induction imgs arbitrary: k)
  case Nil
  show ?case by simp
next
  case (Cons img rest)
  then show ?case by (simp only: download_loop_step fst_conv)
qed

lemma download_loop_fetched: "fetched (snd (download_loop nw k imgs)) = map imageUrl imgs"
proof (induction imgs arbitrary: k)
  case Nil
  show ?case by simp
next
  case (Cons img rest)
  then show ?case
    by (simp add: download_loop_step fetched_append handleDownload_fetched del: download_loop.simps)
qed


lemma download_loop_alerts: "filter is_Alert (snd (download_loop nw k imgs)) = []"
proof (induction imgs arbitrary: k)
  case Nil
  show ?case by simp
next
  case (Cons img rest)
  then show ?case
    by (simp add: download_loop_step handleDownload_alerts del: download_loop.simps)
qed

lemma handleDownloadAll_trace:
  "handleDownloadAll nw k imgs = Alert start_notice # snd (download_loop nw k imgs)"
proof (cases "download_loop nw k imgs")
  case (Pair r t)
  with download_loop_completes[of nw k imgs] have "r = Inr ()" by simp
  with Pair show ?thesis by (simp add: handleDownloadAll_def)
qed

text \<open>A failed download ends in the \<^verbatim>\<open>catch\<close>: the log line, then the raw URL in a new tab.\<close>

lemma handleDownload_catch:
  assumes "download_fails nw k url"
  shows "\<exists>t err. handleDownload nw k url =
           (Inr (), t @ [ConsoleError ''Error downloading image:'' (Some err),
                         WindowOpen url ''_blank''])"
proof (cases "handleDownload_try (nw k url) url")
  case (Pair r t)
  with assms obtain err where "r = Inl err"
    by (cases r) (simp_all add: download_fails_def)
  with Pair show ?thesis by (simp add: handleDownload_def)
qed

lemma download_loop_fallback:
  "i < length imgs \<Longrightarrow> download_fails nw (k + i) (imageUrl (imgs ! i)) \<Longrightarrow>
   WindowOpen (imageUrl (imgs ! i)) ''_blank'' \<in> set (snd (download_loop nw k imgs))"
proof (induction imgs arbitrary: k i)
  case Nil
  then show ?case by simp
next
  case (Cons img rest)
  show ?case
  proof (cases i)
    case 0
    with Cons.prems(2) have "download_fails nw k (imageUrl img)" by simp
    from handleDownload_catch[OF this] obtain t err where
      "handleDownload nw k (imageUrl img) =
         (Inr (), t @ [ConsoleError ''Error downloading image:'' (Some err),
                       WindowOpen (imageUrl img) ''_blank''])"
      by blast
    with 0 show ?thesis by (simp add: download_loop_step del: download_loop.simps)
  next
    case (Suc j)
    with Cons.prems have "j < length rest" "download_fails nw (Suc k + j) (imageUrl (rest ! j))"
      by simp_all
    from Cons.IH[OF this] Suc show ?thesis
      by (simp add: download_loop_step del: download_loop.simps)
  qed
qed

text \<open>A failing item does not stop the bulk download: the loop runs to its end, every
  image is attempted in order, and the failing one is opened in a new tab.\<close>

lemma handleDownloadAll_continues:
  assumes "i < length imgs" and "download_fails nw (k + i) (imageUrl (imgs ! i))"
  shows "fst (download_loop nw k imgs) = Inr ()
         \<and> fetched (handleDownloadAll nw k imgs) = map imageUrl imgs
         \<and> WindowOpen (imageUrl (imgs ! i)) ''_blank'' \<in> set (handleDownloadAll nw k imgs)"
  using download_loop_fallback[OF assms]
  by (simp add: download_loop_completes handleDownloadAll_trace download_loop_fetched)

text \<open>The only alert of a bulk download is the notice shown before the loop, whatever the
  network does.\<close>

lemma handleDownloadAll_alerts:
  "filter is_Alert (handleDownloadAll nw k imgs) = [Alert start_notice]"
  by (simp add: handleDownloadAll_trace download_loop_alerts)

section \<open>Lemmas on the activation\<close>

lemma eventImages_eventId: "img \<in> set (eventImages p ed data) \<Longrightarrow> Some (eventId img) = p"
  by (auto simp: eventImages_def same_event_def toMatchingImage_def)

lemma eventImages_imageId:
  "img \<in> set (eventImages p ed data) \<Longrightarrow> imageId img = trailing_segment (imageUrl img)"
  by (auto simp: eventImages_def toMatchingImage_def pop_js_split)

lemma eventImages_undefined: "eventImages None ed data = []"
  by (simp add: eventImages_def same_event_def)

lemma trailing_segment_empty:
  "(trailing_segment url = []) = (url = [] \<or> last url = CHR ''/'')"
  by (cases "rev url") (auto simp: trailing_segment_def takeWhile_eq_Nil_iff last_rev hd_rev
      dest: arg_cong[where f = rev])

text \<open>The run in which the session, the event and the listing are all there.\<close>

lemma fetchEventPhotos_success:
  assumes "userEmail e = Some email" "email \<noteq> []"
    and "getEventById e (or_else (param_eventId e) []) = Inr (Some ed)"
    and "getAllAttendeeImagesByUser e email = Inr data"
  shows "fetchEventPhotos e s =
           (s\<lparr>loading := False, event := Some ed,
              images := eventImages (param_eventId e) ed data\<rparr>,
            [SetLoading True, LocalStorageGetItem ''userEmail'',
             GetEventById (or_else (param_eventId e) []), SetEvent ed,
             GetAllAttendeeImagesByUser email,
             SetImages (eventImages (param_eventId e) ed data), SetLoading False])"
  using assms by (simp add: fetchEventPhotos_def fetchEventPhotos_try_def Let_def)

text \<open>Whatever happens, the image list is either untouched or a freshly computed one.\<close>

lemma fetchEventPhotos_images:
  "images (fst (fetchEventPhotos e s)) = images s
   \<or> (\<exists>ed data. images (fst (fetchEventPhotos e s)) = eventImages (param_eventId e) ed data)"
  by (auto simp add: fetchEventPhotos_def fetchEventPhotos_try_def Let_def
      split: option.splits sum.splits)

section \<open>The claims on \<^verbatim>\<open>fetchEventPhotos\<close>\<close>

text \<open>
  C1. When the session token is there, the event is found and
  \<^verbatim>\<open>getAllAttendeeImagesByUser\<close> returns a sequence of records, the image list of the view
  is exactly the flattening, in record order, of the records whose \<open>eventId\<close> equals the
  event identifier of the route; every entry of the list carries that identifier; and the
  records of other events contribute nothing: with none of the active event the list is
  empty, and dropping them from the collaborator's answer leaves the list as it is.
\<close>

theorem fetch_filters_active_event:
  assumes "userEmail e = Some email" and "email \<noteq> []"
    and "getEventById e (or_else (param_eventId e) []) = Inr (Some ed)"
    and "getAllAttendeeImagesByUser e email = Inr data"
  shows "images (fst (fetchEventPhotos e s)) =
           concat (map (\<lambda>d. map (toMatchingImage ed d) (matchedImages d))
                       (filter (\<lambda>d. Some (data_eventId d) = param_eventId e) data))
         \<and> (\<forall>img \<in> set (images (fst (fetchEventPhotos e s))).
               Some (eventId img) = param_eventId e)
         \<and> ((\<forall>d \<in> set data. Some (data_eventId d) \<noteq> param_eventId e)
              \<longrightarrow> images (fst (fetchEventPhotos e s)) = [])
         \<and> images (fst (fetchEventPhotos
              (e\<lparr>getAllAttendeeImagesByUser :=
                    \<lambda>u. Inr (filter (\<lambda>d. Some (data_eventId d) = param_eventId e) data)\<rparr>) s))
           = images (fst (fetchEventPhotos e s))"
proof -
  let ?keep = "\<lambda>d. Some (data_eventId d) = param_eventId e"
  let ?e' = "e\<lparr>getAllAttendeeImagesByUser := \<lambda>u. Inr (filter ?keep data)\<rparr>"
  have keep: "same_event (param_eventId e) = ?keep"
    by (rule ext) (simp add: same_event_def)
  have run: "images (fst (fetchEventPhotos e s)) = eventImages (param_eventId e) ed data"
    by (simp add: fetchEventPhotos_success[OF assms])
  have "fetchEventPhotos ?e' s =
          (s\<lparr>loading := False, event := Some ed,
             images := eventImages (param_eventId ?e') ed (filter ?keep data)\<rparr>,
           [SetLoading True, LocalStorageGetItem ''userEmail'',
            GetEventById (or_else (param_eventId ?e') []), SetEvent ed,
            GetAllAttendeeImagesByUser email,
            SetImages (eventImages (param_eventId ?e') ed (filter ?keep data)),
            SetLoading False])"
    by (rule fetchEventPhotos_success) (simp_all add: assms)
  then have run':
    "images (fst (fetchEventPhotos ?e' s)) = eventImages (param_eventId e) ed (filter ?keep data)"
    by simp
  have c1: "images (fst (fetchEventPhotos e s)) =
           concat (map (\<lambda>d. map (toMatchingImage ed d) (matchedImages d)) (filter ?keep data))"
    by (simp add: run eventImages_def keep)
  have c2: "\<forall>img \<in> set (images (fst (fetchEventPhotos e s))). Some (eventId img) = param_eventId e"
    using eventImages_eventId by (simp add: run)
  have c3: "(\<forall>d \<in> set data. \<not> ?keep d) \<longrightarrow> images (fst (fetchEventPhotos e s)) = []"
    by (simp add: c1 filter_False)
  have c4: "images (fst (fetchEventPhotos ?e' s)) = images (fst (fetchEventPhotos e s))"
    by (simp add: run run' eventImages_def keep)
  from c1 c2 c3 c4 show ?thesis by blast
qed

text \<open>The scenario of the spec: two photos of \<open>ev1\<close>, and a record of \<open>ev2\<close> left out.\<close>

theorem fetch_filters_active_event_witness:
  "images (fst (fetchEventPhotos gala_env mount_state)) = [gala_a, gala_b]
   \<and> eventId gala_a = ''ev1'' \<and> eventId gala_b = ''ev1'' \<and> param_eventId gala_env = Some ''ev1''"
proof -
  have h1: "userEmail gala_env = Some ''ann@example.org''" by (simp add: gala_env_def)
  have h2: "''ann@example.org'' \<noteq> []" by simp
  have h3: "getEventById gala_env (or_else (param_eventId gala_env) []) = Inr (Some gala)"
    by (simp add: gala_env_def or_else_def)
  have h4: "getAllAttendeeImagesByUser gala_env ''ann@example.org''
            = Inr [gala_record, other_record]"
    by (simp add: gala_env_def)
  have p: "param_eventId gala_env = Some ''ev1''" by (simp add: gala_env_def)
  from fetch_filters_active_event[OF h1 h2 h3 h4, of mount_state]
  have "images (fst (fetchEventPhotos gala_env mount_state)) =
           concat (map (\<lambda>d. map (toMatchingImage gala d) (matchedImages d))
                       (filter (\<lambda>d. Some (data_eventId d) = param_eventId gala_env)
                          [gala_record, other_record]))"
    by blast
  then show ?thesis
    by (simp add: p gala_record_def other_record_def toMatchingImage_def gala_def gala_a_def
        gala_b_def or_else_def pop_def)
qed

text \<open>
  C4. With a session token, when the event lookup returns no event, the activation logs
  "Event not found", redirects to the dashboard and stops loading, and that is all it
  does: \<^verbatim>\<open>getAllAttendeeImagesByUser\<close> is not called (the run is the same whatever that
  collaborator is), and the image list is left as it was, empty on a fresh mount.
\<close>

theorem event_not_found_redirects:
  assumes "userEmail e = Some email" and "email \<noteq> []"
    and "getEventById e (or_else (param_eventId e) []) = Inr None"
  shows "snd (fetchEventPhotos e s) =
           [SetLoading True, LocalStorageGetItem ''userEmail'',
            GetEventById (or_else (param_eventId e) []),
            ConsoleError ''Event not found'' None, Navigate ''/attendee-dashboard'',
            SetLoading False]
         \<and> images (fst (fetchEventPhotos e s)) = images s
         \<and> images (fst (fetchEventPhotos e mount_state)) = []
         \<and> fetchEventPhotos (e\<lparr>getAllAttendeeImagesByUser := h\<rparr>) s = fetchEventPhotos e s"
  using assms
  by (simp add: fetchEventPhotos_def fetchEventPhotos_try_def Let_def mount_state_def)

theorem event_not_found_redirects_witness:
  "snd (fetchEventPhotos unknown_event_env mount_state) =
     [SetLoading True, LocalStorageGetItem ''userEmail'', GetEventById ''ev9'',
      ConsoleError ''Event not found'' None, Navigate ''/attendee-dashboard'',
      SetLoading False]
   \<and> images (fst (fetchEventPhotos unknown_event_env mount_state)) = []"
proof -
  have h1: "userEmail unknown_event_env = Some ''ann@example.org''"
    by (simp add: unknown_event_env_def gala_env_def)
  have h2: "''ann@example.org'' \<noteq> []" by simp
  have p: "or_else (param_eventId unknown_event_env) [] = ''ev9''"
    by (simp add: unknown_event_env_def gala_env_def or_else_def)
  have h3: "getEventById unknown_event_env (or_else (param_eventId unknown_event_env) [])
            = Inr None"
    by (simp add: p) (simp add: unknown_event_env_def gala_env_def)
  note r = event_not_found_redirects[OF h1 h2 h3, of mount_state]
  from r have a: "snd (fetchEventPhotos unknown_event_env mount_state) =
           [SetLoading True, LocalStorageGetItem ''userEmail'',
            GetEventById (or_else (param_eventId unknown_event_env) []),
            ConsoleError ''Event not found'' None, Navigate ''/attendee-dashboard'',
            SetLoading False]"
    by blast
  from r have b: "images (fst (fetchEventPhotos unknown_event_env mount_state)) = []"
    by blast
  from a b show ?thesis by (simp only: p simp_thms)
qed

text \<open>
  C5. When \<^verbatim>\<open>localStorage\<close> holds no \<^verbatim>\<open>userEmail\<close>, the activation redirects to
  \<^verbatim>\<open>/GoogleLogin\<close> and stops loading; neither collaborator is called: no call is among
  the effects, and the run is the same whatever the two collaborators are.
\<close>

theorem no_session_redirects:
  assumes "userEmail e = None"
  shows "snd (fetchEventPhotos e s) =
           [SetLoading True, LocalStorageGetItem ''userEmail'', Navigate ''/GoogleLogin'',
            SetLoading False]
         \<and> filter is_collaborator_call (snd (fetchEventPhotos e s)) = []
         \<and> fetchEventPhotos (e\<lparr>getEventById := g, getAllAttendeeImagesByUser := h\<rparr>) s
             = fetchEventPhotos e s"
  using assms
  by (simp add: fetchEventPhotos_def fetchEventPhotos_try_def Let_def)

theorem no_session_redirects_witness:
  "userEmail anonymous_env = None
   \<and> snd (fetchEventPhotos anonymous_env mount_state) =
       [SetLoading True, LocalStorageGetItem ''userEmail'', Navigate ''/GoogleLogin'',
        SetLoading False]"
proof -
  have h: "userEmail anonymous_env = None" by (simp add: anonymous_env_def)
  from no_session_redirects[OF h, of mount_state] h show ?thesis by simp
qed

text \<open>
  C6. The \<open>imageId\<close> of an entry is the trailing segment of its URL, the substring after
  the last \<open>/\<close> (the whole URL when it has no \<open>/\<close>); it is the empty string exactly when
  nothing follows the last \<open>/\<close>, that is when the URL is empty or ends in \<open>/\<close>. This holds
  of every entry of the image list after an activation of a fresh mount.
\<close>

theorem imageId_is_trailing_segment:
  "imageId (toMatchingImage ed d url) = trailing_segment url
   \<and> (imageId (toMatchingImage ed d url) = []) = (url = [] \<or> last url = CHR ''/'')
   \<and> (\<forall>img \<in> set (images (fst (fetchEventPhotos e mount_state))).
         imageId img = trailing_segment (imageUrl img))"
proof -
  have a: "imageId (toMatchingImage ed d url) = trailing_segment url"
    by (simp add: toMatchingImage_def pop_js_split)
  have b: "(imageId (toMatchingImage ed d url) = []) = (url = [] \<or> last url = CHR ''/'')"
    by (simp only: a trailing_segment_empty)
  have c: "\<forall>img \<in> set (images (fst (fetchEventPhotos e mount_state))).
         imageId img = trailing_segment (imageUrl img)"
    using fetchEventPhotos_images[of e mount_state] eventImages_imageId
    by (auto simp: mount_state_def)
  from a b c show ?thesis by blast
qed

theorem imageId_is_trailing_segment_witness:
  "gala_b \<in> set (images (fst (fetchEventPhotos gala_env mount_state)))
   \<and> imageId gala_b = trailing_segment (imageUrl gala_b)
   \<and> trailing_segment (imageUrl gala_b) = ''b.jpg''
   \<and> imageId (toMatchingImage gala gala_record ''https://x/'') = []"
proof -
  have m: "gala_b \<in> set (images (fst (fetchEventPhotos gala_env mount_state)))"
    by (simp add: fetchEventPhotos_def fetchEventPhotos_try_def Let_def gala_env_def or_else_def
        eventImages_def same_event_def gala_record_def other_record_def toMatchingImage_def
        pop_def gala_def gala_b_def)
  have u: "(''https://x/'' = [] \<or> last ''https://x/'' = CHR ''/'')" by simp
  have t: "trailing_segment (imageUrl gala_b) = ''b.jpg''"
    by (simp add: trailing_segment_def gala_b_def)
  from imageId_is_trailing_segment[of gala gala_record "''https://x/''" gala_env] m u t
  show ?thesis by auto
qed

text \<open>
  C8, as the code has it. With a session token, when the event lookup rejects, or the
  event is found and the image listing rejects, the activation logs the error, stops
  loading and leaves the image list as it was before the activation: empty on a fresh
  mount, the list of the previous activation otherwise. No alert is raised, and what is
  rendered is the page with that list, or with the empty-state panel and no "Download All"
  button when the list is empty: no error text.
\<close>

theorem fetch_failure_absorbed:
  assumes "userEmail e = Some email" and "email \<noteq> []"
    and "getEventById e (or_else (param_eventId e) []) = Inl err
         \<or> (getEventById e (or_else (param_eventId e) []) = Inr (Some ed)
            \<and> getAllAttendeeImagesByUser e email = Inl err)"
  shows "ConsoleError ''Error fetching event photos:'' (Some err)
           \<in> set (snd (fetchEventPhotos e s))
         \<and> last (snd (fetchEventPhotos e s)) = SetLoading False
         \<and> loading (fst (fetchEventPhotos e s)) = False
         \<and> images (fst (fetchEventPhotos e s)) = images s
         \<and> images (fst (fetchEventPhotos e mount_state)) = []
         \<and> filter is_Alert (snd (fetchEventPhotos e s)) = []
         \<and> (\<exists>title dateText. render fmt (fst (fetchEventPhotos e s)) =
               Page title dateText (images s \<noteq> [])
                 (if images s = [] then EmptyPanel ''No photos found for this event''
                  else Grid (images s)))"
  using assms(3)
proof
  assume "getEventById e (or_else (param_eventId e) []) = Inl err"
  with assms(1,2) show ?thesis
    by (simp add: fetchEventPhotos_def fetchEventPhotos_try_def Let_def mount_state_def
        render_def)
next
  assume "getEventById e (or_else (param_eventId e) []) = Inr (Some ed)
          \<and> getAllAttendeeImagesByUser e email = Inl err"
  with assms(1,2) show ?thesis
    by (simp add: fetchEventPhotos_def fetchEventPhotos_try_def Let_def mount_state_def
        render_def)
qed

text \<open>Both failures: the lookup rejecting, and the listing rejecting after the lookup.\<close>

theorem fetch_failure_absorbed_witness:
  "snd (fetchEventPhotos lookup_fails_env mount_state) =
     [SetLoading True, LocalStorageGetItem ''userEmail'', GetEventById ''ev1'',
      ConsoleError ''Error fetching event photos:'' (Some ''offline''), SetLoading False]
   \<and> loading (fst (fetchEventPhotos lookup_fails_env mount_state)) = False
   \<and> images (fst (fetchEventPhotos lookup_fails_env mount_state)) = []
   \<and> ConsoleError ''Error fetching event photos:'' (Some ''offline'')
        \<in> set (snd (fetchEventPhotos listing_fails_env mount_state))
   \<and> loading (fst (fetchEventPhotos listing_fails_env mount_state)) = False
   \<and> images (fst (fetchEventPhotos listing_fails_env mount_state)) = []"
proof -
  have a1: "userEmail lookup_fails_env = Some ''ann@example.org''"
    by (simp add: lookup_fails_env_def gala_env_def)
  have b1: "userEmail listing_fails_env = Some ''ann@example.org''"
    by (simp add: listing_fails_env_def gala_env_def)
  have h2: "''ann@example.org'' \<noteq> []" by simp
  have a3: "getEventById lookup_fails_env (or_else (param_eventId lookup_fails_env) [])
              = Inl ''offline''
            \<or> (getEventById lookup_fails_env (or_else (param_eventId lookup_fails_env) [])
                 = Inr (Some gala)
               \<and> getAllAttendeeImagesByUser lookup_fails_env ''ann@example.org''
                 = Inl ''offline'')"
    by (simp add: lookup_fails_env_def gala_env_def)
  have b3: "getEventById listing_fails_env (or_else (param_eventId listing_fails_env) [])
              = Inl ''offline''
            \<or> (getEventById listing_fails_env (or_else (param_eventId listing_fails_env) [])
                 = Inr (Some gala)
               \<and> getAllAttendeeImagesByUser listing_fails_env ''ann@example.org''
                 = Inl ''offline'')"
    by (simp add: listing_fails_env_def gala_env_def or_else_def)
  note a = fetch_failure_absorbed[OF a1 h2 a3, of mount_state]
  note b = fetch_failure_absorbed[OF b1 h2 b3, of mount_state]
  have t: "snd (fetchEventPhotos lookup_fails_env mount_state) =
     [SetLoading True, LocalStorageGetItem ''userEmail'', GetEventById ''ev1'',
      ConsoleError ''Error fetching event photos:'' (Some ''offline''), SetLoading False]"
    by (simp add: fetchEventPhotos_def fetchEventPhotos_try_def Let_def lookup_fails_env_def
        gala_env_def or_else_def)
  from a have a': "loading (fst (fetchEventPhotos lookup_fails_env mount_state)) = False
      \<and> images (fst (fetchEventPhotos lookup_fails_env mount_state)) = []" by blast
  from b have b': "ConsoleError ''Error fetching event photos:'' (Some ''offline'')
        \<in> set (snd (fetchEventPhotos listing_fails_env mount_state))
      \<and> loading (fst (fetchEventPhotos listing_fails_env mount_state)) = False
      \<and> images (fst (fetchEventPhotos listing_fails_env mount_state)) = []" by blast
  from t a' b' show ?thesis by blast
qed

text \<open>
  C8 as the spec states it fails for an activation that is not the first of its view: the
  effect runs again when the route parameter changes, in the same instance. After the
  activation for \<open>ev1\<close> has shown two photos, an activation for \<open>ev2\<close> whose event lookup
  rejects does not leave the image list empty: the two photos of \<open>ev1\<close> stay, and are
  rendered.
\<close>

theorem fetch_failure_keeps_previous_images_counterexample:
  "userEmail reactivation_fails_env = Some ''ann@example.org''
   \<and> getEventById reactivation_fails_env (or_else (param_eventId reactivation_fails_env) [])
       = Inl ''offline''
   \<and> images (fst (fetchEventPhotos reactivation_fails_env gala_state)) = [gala_a, gala_b]
   \<and> images (fst (fetchEventPhotos reactivation_fails_env gala_state)) \<noteq> []
   \<and> render id (fst (fetchEventPhotos reactivation_fails_env gala_state)) =
       Page (Some ''Spring Gala'') ''2024-05-01'' True (Grid [gala_a, gala_b])"
  by (simp add: reactivation_fails_env_def gala_state_def gala_env_def fetchEventPhotos_def
      fetchEventPhotos_try_def Let_def or_else_def eventImages_def same_event_def
      gala_record_def other_record_def toMatchingImage_def pop_def gala_def gala_a_def
      gala_b_def mount_state_def render_def)

text \<open>
  C10. With a session token and no event identifier in the route, the activation still
  calls \<^verbatim>\<open>getEventById\<close>, with the empty string; the filter compares every record with
  \<^verbatim>\<open>undefined\<close>, so no record matches; when the lookup finds an event and the listing
  resolves, the image list is set to the empty list, and after an activation of a fresh
  mount the list is empty whatever the collaborators answer.
\<close>

theorem absent_route_id_gives_no_images:
  assumes "param_eventId e = None" and "userEmail e = Some email" and "email \<noteq> []"
  shows "take 3 (snd (fetchEventPhotos e s)) =
           [SetLoading True, LocalStorageGetItem ''userEmail'', GetEventById []]
         \<and> \<not> same_event (param_eventId e) d
         \<and> (getEventById e [] = Inr (Some ed) \<and> getAllAttendeeImagesByUser e email = Inr data
              \<longrightarrow> images (fst (fetchEventPhotos e s)) = []
                  \<and> SetImages [] \<in> set (snd (fetchEventPhotos e s)))
         \<and> images (fst (fetchEventPhotos e mount_state)) = []"
proof -
  have a: "take 3 (snd (fetchEventPhotos e s)) =
           [SetLoading True, LocalStorageGetItem ''userEmail'', GetEventById []]"
    using assms
    by (simp add: fetchEventPhotos_def fetchEventPhotos_try_def Let_def or_else_def
        split: sum.splits option.splits)
  have b: "\<not> same_event (param_eventId e) d"
    by (simp add: same_event_def assms(1))
  have c: "getEventById e [] = Inr (Some ed) \<and> getAllAttendeeImagesByUser e email = Inr data
              \<longrightarrow> images (fst (fetchEventPhotos e s)) = []
                  \<and> SetImages [] \<in> set (snd (fetchEventPhotos e s))"
    using assms
    by (simp add: fetchEventPhotos_def fetchEventPhotos_try_def Let_def or_else_def
        eventImages_undefined)
  have d: "images (fst (fetchEventPhotos e mount_state)) = []"
    using fetchEventPhotos_images[of e mount_state]
    by (auto simp: assms(1) eventImages_undefined mount_state_def)
  from a b c d show ?thesis by blast
qed

text \<open>An event with the empty id exists, and so does a record with the empty \<open>eventId\<close>.\<close>

theorem absent_route_id_gives_no_images_witness:
  "param_eventId no_param_env = None
   \<and> getEventById no_param_env [] = Inr (Some \<lparr>id' = [], name = ''Nameless'', date = []\<rparr>)
   \<and> snd (fetchEventPhotos no_param_env mount_state) =
       [SetLoading True, LocalStorageGetItem ''userEmail'', GetEventById [],
        SetEvent \<lparr>id' = [], name = ''Nameless'', date = []\<rparr>,
        GetAllAttendeeImagesByUser ''ann@example.org'', SetImages [], SetLoading False]
   \<and> images (fst (fetchEventPhotos no_param_env mount_state)) = []"
proof -
  have h1: "param_eventId no_param_env = None" by (simp add: no_param_env_def)
  have h2: "userEmail no_param_env = Some ''ann@example.org''" by (simp add: no_param_env_def)
  have h3: "''ann@example.org'' \<noteq> []" by simp
  have g: "getEventById no_param_env []
           = Inr (Some \<lparr>id' = [], name = ''Nameless'', date = []\<rparr>)"
    by (simp add: no_param_env_def)
  have t: "snd (fetchEventPhotos no_param_env mount_state) =
       [SetLoading True, LocalStorageGetItem ''userEmail'', GetEventById [],
        SetEvent \<lparr>id' = [], name = ''Nameless'', date = []\<rparr>,
        GetAllAttendeeImagesByUser ''ann@example.org'', SetImages [], SetLoading False]"
    by (simp add: fetchEventPhotos_def fetchEventPhotos_try_def Let_def no_param_env_def
        or_else_def eventImages_def same_event_def gala_record_def)
  from absent_route_id_gives_no_images[OF h1 h2 h3, of mount_state]
  have "images (fst (fetchEventPhotos no_param_env mount_state)) = []" by blast
  with h1 g t show ?thesis by blast
qed

section \<open>The claims on the downloads\<close>

text \<open>
  C2. In a bulk download over one image whose fetch rejects, the single-image download
  has failed, and the run is: the notice up front, the fetch, the log line and the raw URL
  in a new tab from \<^verbatim>\<open>handleDownload\<close>, the wait. The aggregate warning of line 138 is
  shown zero times, where the claim wants it once: \<^verbatim>\<open>handleDownload\<close> has swallowed the
  failure, so the \<^verbatim>\<open>catch\<close> around the loop, which holds the warning, is not reached.
\<close>

theorem bulk_item_failure_shows_no_warning:
  "download_fails offline 0 (imageUrl gala_a)
   \<and> handleDownloadAll offline 0 [gala_a] =
       [Alert start_notice, Fetch ''https://x/a.jpg'',
        ConsoleError ''Error downloading image:'' (Some ''Failed to fetch''),
        WindowOpen ''https://x/a.jpg'' ''_blank'', Delay 500]
   \<and> count_list (handleDownloadAll offline 0 [gala_a]) (Alert aggregate_warning) = 0"
  by (simp add: download_fails_def handleDownloadAll_def handleDownload_def
        handleDownload_try_def offline_def gala_a_def start_notice_def aggregate_warning_def)





end
